theory Spec2Isabelle
  imports Complex_Main
begin

section \<open>Frame extraction engine of \<open>video_processor.py\<close>\<close>

text \<open>
  Conventions of the embedding.
  \<^item> Python \<open>int\<close> is \<^typ>\<open>int\<close>; Python \<open>str\<close> is \<^typ>\<open>string\<close> (ASCII text).
  \<^item> Python \<open>float\<close> values are exact rationals, extended by the two infinities and NaN
    that \<open>float()\<close> can produce from text (\<open>pyfloat\<close>). Binary rounding and overflow of
    finite values are outside the model; the frame rate of a video is a finite rational.
  \<^item> An exception that leaves a function is the \<open>Inl\<close> side of its result.
\<close>

datatype py_error = ValueError | IndexError | OverflowError | RuntimeError | OSError

datatype pyfloat = Finite rat | PInf | NInf | NaN

subsection \<open>Builtins: \<open>str.replace\<close>, \<open>str.split\<close>, \<open>str.lower\<close>, \<open>int()\<close>, \<open>float()\<close>\<close>

definition replace_char :: "char \<Rightarrow> char \<Rightarrow> string \<Rightarrow> string" where
  "replace_char a b s = map (\<lambda>c. if c = a then b else c) s"

fun split_on :: "char \<Rightarrow> string \<Rightarrow> string list" where
  "split_on d [] = [[]]"
| "split_on d (c # cs) =
     (if c = d then [] # split_on d cs
      else (case split_on d cs of [] \<Rightarrow> [[c]] | p # ps \<Rightarrow> (c # p) # ps))"

definition is_space :: "char \<Rightarrow> bool" where
  "is_space c = (c \<in> set [CHR '' '', CHR 0x09, CHR 0x0A, CHR 0x0B, CHR 0x0C, CHR 0x0D,
                           CHR 0x1C, CHR 0x1D, CHR 0x1E, CHR 0x1F])"

definition strip :: "string \<Rightarrow> string" where
  "strip s = rev (dropWhile is_space (rev (dropWhile is_space s)))"

definition digit_val :: "char \<Rightarrow> nat option" where
  "digit_val c = map_of (zip ''0123456789'' [0, 1, 2, 3, 4, 5, 6, 7, 8, 9]) c"

text \<open>
  A \<open>digitpart\<close> of Python's numeric grammar: decimal digits, single underscores allowed
  between two digits. The result is the value read and the number of digits.
\<close>

fun digit_run :: "nat \<Rightarrow> nat \<Rightarrow> bool \<Rightarrow> string \<Rightarrow> (nat \<times> nat) option" where
  "digit_run acc n prev [] = (if prev then Some (acc, n) else None)"
| "digit_run acc n prev (c # cs) =
     (case digit_val c of
        Some d \<Rightarrow> digit_run (10 * acc + d) (Suc n) True cs
      | None \<Rightarrow> if c = CHR ''_'' \<and> prev then digit_run acc n False cs else None)"

definition digitpart :: "string \<Rightarrow> (nat \<times> nat) option" where
  "digitpart s = digit_run 0 0 False s"

text \<open>\<open>int(s)\<close> in base ten; \<open>None\<close> is the \<open>ValueError\<close> for text that is not an integer.\<close>

definition py_int :: "string \<Rightarrow> int option" where
  "py_int s =
     (case strip s of
        [] \<Rightarrow> None
      | c # cs \<Rightarrow>
          if c = CHR ''-'' then map_option (\<lambda>(v, n). - int v) (digitpart cs)
          else if c = CHR ''+'' then map_option (\<lambda>(v, n). int v) (digitpart cs)
          else map_option (\<lambda>(v, n). int v) (digitpart (c # cs)))"

definition lower_char :: "char \<Rightarrow> char" where
  "lower_char c =
     (case map_of (zip ''ABCDEFGHIJKLMNOPQRSTUVWXYZ'' ''abcdefghijklmnopqrstuvwxyz'') c of
        Some l \<Rightarrow> l | None \<Rightarrow> c)"

definition lower :: "string \<Rightarrow> string" where
  "lower s = map lower_char s"

text \<open>
  The unsigned \<open>floatnumber\<close> of \<open>float()\<close>:
  \<open>number ::= [digitpart] "." digitpart | digitpart ["."]\<close>, then an optional
  \<open>exponent ::= ("e" | "E") [sign] digitpart\<close>.
\<close>

definition is_e :: "char \<Rightarrow> bool" where
  "is_e c = (c = CHR ''e'' \<or> c = CHR ''E'')"

definition float_mantissa :: "string \<Rightarrow> rat option" where
  "float_mantissa s =
     (let ip = takeWhile (\<lambda>c. c \<noteq> CHR ''.'') s; rest = dropWhile (\<lambda>c. c \<noteq> CHR ''.'') s in
      if rest = [] then map_option (\<lambda>(v, n). of_nat v) (digitpart ip)
      else let fp = tl rest in
        if fp = [] then map_option (\<lambda>(v, n). of_nat v) (digitpart ip)
        else (case digitpart fp of
                None \<Rightarrow> None
              | Some (f, k) \<Rightarrow>
                  if ip = [] then Some (of_nat f / 10 ^ k)
                  else (case digitpart ip of
                          None \<Rightarrow> None
                        | Some (v, n) \<Rightarrow> Some (of_nat v + of_nat f / 10 ^ k))))"

definition float_exponent :: "string \<Rightarrow> int option" where
  "float_exponent s =
     (case s of
        [] \<Rightarrow> None
      | c # cs \<Rightarrow>
          if c = CHR ''-'' then map_option (\<lambda>(v, n). - int v) (digitpart cs)
          else if c = CHR ''+'' then map_option (\<lambda>(v, n). int v) (digitpart cs)
          else map_option (\<lambda>(v, n). int v) (digitpart (c # cs)))"

definition floatnumber :: "string \<Rightarrow> rat option" where
  "floatnumber s =
     (let m = takeWhile (\<lambda>c. \<not> is_e c) s; rest = dropWhile (\<lambda>c. \<not> is_e c) s in
      if rest = [] then float_mantissa m
      else (case float_mantissa m of
              None \<Rightarrow> None
            | Some x \<Rightarrow>
                (case float_exponent (tl rest) of
                   None \<Rightarrow> None
                 | Some e \<Rightarrow> Some (if 0 \<le> e then x * 10 ^ nat e else x / 10 ^ nat (- e)))))"

definition absfloatvalue :: "string \<Rightarrow> pyfloat option" where
  "absfloatvalue s =
     (if lower s = ''inf'' \<or> lower s = ''infinity'' then Some PInf
      else if lower s = ''nan'' then Some NaN
      else map_option Finite (floatnumber s))"

definition float_neg :: "pyfloat \<Rightarrow> pyfloat" where
  "float_neg x = (case x of Finite r \<Rightarrow> Finite (- r) | PInf \<Rightarrow> NInf | NInf \<Rightarrow> PInf | NaN \<Rightarrow> NaN)"

text \<open>\<open>float(s)\<close>; \<open>None\<close> is the \<open>ValueError\<close> for text that is not a number.\<close>

definition py_float :: "string \<Rightarrow> pyfloat option" where
  "py_float s =
     (case strip s of
        [] \<Rightarrow> None
      | c # cs \<Rightarrow>
          if c = CHR ''-'' then map_option float_neg (absfloatvalue cs)
          else if c = CHR ''+'' then absfloatvalue cs
          else absfloatvalue (c # cs))"

subsection \<open>Float arithmetic used by the mapper\<close>

text \<open>\<open>int(x)\<close> of a float truncates towards zero.\<close>

definition trunc :: "rat \<Rightarrow> int" where
  "trunc x = (if 0 \<le> x then \<lfloor>x\<rfloor> else \<lceil>x\<rceil>)"

text \<open>\<open>x // y\<close> and \<open>x % y\<close> on floats, for a divisor \<open>y > 0\<close>.\<close>

definition floordiv :: "rat \<Rightarrow> rat \<Rightarrow> rat" where
  "floordiv x y = of_int \<lfloor>x / y\<rfloor>"

definition fmod :: "rat \<Rightarrow> rat \<Rightarrow> rat" where
  "fmod x y = x - y * of_int \<lfloor>x / y\<rfloor>"

text \<open>\<open>n + x\<close> for an int \<open>n\<close> and a float \<open>x\<close>; \<open>x * fps\<close> for a finite \<open>fps\<close>.\<close>

definition float_add_int :: "int \<Rightarrow> pyfloat \<Rightarrow> pyfloat" where
  "float_add_int n x = (case x of Finite r \<Rightarrow> Finite (of_int n + r) | PInf \<Rightarrow> PInf | NInf \<Rightarrow> NInf | NaN \<Rightarrow> NaN)"

definition float_mul :: "pyfloat \<Rightarrow> rat \<Rightarrow> pyfloat" where
  "float_mul x fps =
     (case x of
        Finite r \<Rightarrow> Finite (r * fps)
      | PInf \<Rightarrow> (if 0 < fps then PInf else if fps < 0 then NInf else NaN)
      | NInf \<Rightarrow> (if 0 < fps then NInf else if fps < 0 then PInf else NaN)
      | NaN \<Rightarrow> NaN)"

text \<open>\<open>int(x)\<close> of a float: \<open>OverflowError\<close> on an infinity, \<open>ValueError\<close> on NaN.\<close>

definition int_of_float :: "pyfloat \<Rightarrow> py_error + int" where
  "int_of_float x =
     (case x of Finite r \<Rightarrow> Inr (trunc r) | PInf \<Rightarrow> Inl OverflowError
      | NInf \<Rightarrow> Inl OverflowError | NaN \<Rightarrow> Inl ValueError)"

subsection \<open>Formatting: \<open>f"{n:02d}"\<close>\<close>

definition digit_char :: "nat \<Rightarrow> char" where
  "digit_char d = ''0123456789'' ! d"

fun digits_of :: "nat \<Rightarrow> string" where
  "digits_of n = (if n < 10 then [digit_char n] else digits_of (n div 10) @ [digit_char (n mod 10)])"

declare digits_of.simps [simp del]

text \<open>\<open>f"{n:0wd}"\<close>: zero padding to width \<open>w\<close>, the sign counted in the width.\<close>

definition fmt_d :: "nat \<Rightarrow> int \<Rightarrow> string" where
  "fmt_d w n =
     (if n < 0 then CHR ''-'' # replicate (w - 1 - length (digits_of (nat (- n)))) CHR ''0'' @ digits_of (nat (- n))
      else replicate (w - length (digits_of (nat n))) CHR ''0'' @ digits_of (nat n))"

subsection \<open>Time/frame mapper\<close>

text \<open>\<open>VideoProcessor.frame_to_timestamp\<close>, with \<open>self.video_info['fps']\<close> as \<open>fps\<close>.\<close>

definition frame_to_timestamp :: "rat \<Rightarrow> int \<Rightarrow> string" where
  "frame_to_timestamp fps frame_number =
     (if fps \<le> 0 then ''00-00-00-000''
      else
        let time_seconds = of_int frame_number / fps;
            hours = trunc (floordiv time_seconds 3600);
            minutes = trunc (floordiv (fmod time_seconds 3600) 60);
            seconds = trunc (fmod time_seconds 60);
            milliseconds = trunc (fmod time_seconds 1 * 1000)
        in fmt_d 2 hours @ ''-'' @ fmt_d 2 minutes @ ''-'' @ fmt_d 2 seconds @ ''-'' @ fmt_d 3 milliseconds)"

text \<open>
  \<open>VideoProcessor.timestamp_to_frame\<close>, with \<open>self.video_info['fps']\<close> as \<open>fps\<close> and
  \<open>self.video_info['total_frames']\<close> as \<open>total_frames\<close>. The \<open>ValueError\<close> of \<open>int()\<close> and
  \<open>float()\<close> is caught and falls through to \<open>return 0\<close>; an \<open>OverflowError\<close> is not caught.
\<close>

definition timestamp_to_frame :: "rat \<Rightarrow> int \<Rightarrow> string \<Rightarrow> py_error + int" where
  "timestamp_to_frame fps total_frames timestamp_str =
     (let time_parts = split_on CHR '':'' (replace_char CHR ''-'' CHR '':'' timestamp_str) in
      if 3 \<le> length time_parts then
        (case py_int (time_parts ! 0) of
           None \<Rightarrow> Inr 0
         | Some hours \<Rightarrow>
             (case py_int (time_parts ! 1) of
                None \<Rightarrow> Inr 0
              | Some minutes \<Rightarrow>
                  (case py_float (time_parts ! 2) of
                     None \<Rightarrow> Inr 0
                   | Some seconds \<Rightarrow>
                       (let total_seconds = float_add_int (hours * 3600 + minutes * 60) seconds in
                        case int_of_float (float_mul total_seconds fps) of
                          Inl ValueError \<Rightarrow> Inr 0
                        | Inl IndexError \<Rightarrow> Inr 0
                        | Inl e \<Rightarrow> Inl e
                        | Inr frame_number \<Rightarrow> Inr (min frame_number (total_frames - 1))))))
      else Inr 0)"



subsection \<open>Extraction engine: request, environment, result\<close>

text \<open>The keyword arguments of \<open>extract_frames\<close> (the output directory and the callback apart).\<close>

record request =
  start_time :: string
  end_time :: "string option"
  frame_interval :: int
  use_threading :: bool
  max_workers :: "int option"
  output_format :: string
  quality :: "int option"
  lossless :: bool
  png_compress_level :: int
  backend :: string
  hwaccel :: string

text \<open>
  What the call meets outside the program: the opened video, the file system, the
  executable search path, the decoder and the encoders. \<open>ffmpeg_available k\<close> answers the
  \<open>k\<close>-th call of \<open>_ffmpeg_available\<close>; \<open>read_ok n\<close> is the flag \<open>cap.read()\<close> returns in
  the loop iteration of frame \<open>n\<close>; \<open>save_ok n\<close> tells whether encoding and writing frame \<open>n\<close>
  succeeds; \<open>callback\<close> is \<open>progress_callback\<close>, given by the counter values at which it
  raises; \<open>ffmpeg_decoded\<close> is the number of frames ffmpeg decodes between \<open>-ss\<close> and
  \<open>-to\<close>; \<open>replace_ok\<close> tells whether \<open>os.replace\<close> of a produced file succeeds.
\<close>

record world =
  w_fps :: rat
  w_total_frames :: int
  cap_opened :: bool
  makedirs_ok :: bool
  cpu_count :: "int option"
  ffmpeg_available :: "nat \<Rightarrow> bool"
  read_ok :: "int \<Rightarrow> bool"
  save_ok :: "int \<Rightarrow> bool"
  callback :: "(int \<Rightarrow> bool) option"
  ffmpeg_returncode :: int
  ffmpeg_decoded :: nat
  replace_ok :: "string \<Rightarrow> bool"

datatype encoder = PNG int | JPEG int | WEBP int bool

text \<open>One call of \<open>save_and_report\<close>: the frame, the file name, the encoder and its settings.\<close>

record save_task =
  task_frame :: int
  filename :: string
  encoding :: encoder

text \<open>
  The counters of a run. \<open>futures\<close> is the list the loop appends to when a pool is used;
  \<open>calls\<close> records every \<open>save_and_report\<close> call in order, pooled or direct.
\<close>

record counters =
  extracted_count :: int
  failed_count :: int
  progress_counter :: int
  futures :: "save_task list"
  calls :: "save_task list"

text \<open>
  The returned dictionary (directory, duration and the echoed stride apart); \<open>extracted\<close>
  and \<open>failed\<close> are its \<open>extracted_count\<close> and \<open>failed_count\<close>. \<open>written\<close> lists the
  \<open>save_and_report\<close> calls of the direct backend; \<open>renamed\<close> lists, for the ffmpeg
  backend, each final file name with the absolute index of the frame the file holds.
\<close>

record result =
  total_frames_to_extract :: int
  extracted :: int
  failed :: int
  start_frame :: int
  end_frame :: int
  written :: "save_task list"
  renamed :: "(string \<times> int) list"

text \<open>\<open>len(range(lo, hi, step))\<close>; a zero step raises \<open>ValueError\<close>.\<close>

definition range_len :: "int \<Rightarrow> int \<Rightarrow> int \<Rightarrow> py_error + int" where
  "range_len lo hi step =
     (if step = 0 then Inl ValueError
      else if 0 < step then Inr (if lo < hi then (hi - lo - 1) div step + 1 else 0)
      else Inr (if hi < lo then (lo - hi - 1) div (- step) + 1 else 0))"

text \<open>\<open>x or d\<close> for an optional int: \<open>None\<close> and 0 are falsy.\<close>

definition int_or :: "int option \<Rightarrow> int \<Rightarrow> int" where
  "int_or x d = (case x of None \<Rightarrow> d | Some v \<Rightarrow> if v = 0 then d else v)"

text \<open>\<open>s or d\<close> for a string: the empty string is falsy.\<close>

definition str_or :: "string \<Rightarrow> string \<Rightarrow> string" where
  "str_or s d = (if s = [] then d else s)"

definition callback_raises :: "world \<Rightarrow> int \<Rightarrow> bool" where
  "callback_raises W n = (case callback W of None \<Rightarrow> False | Some f \<Rightarrow> f n)"

subsection \<open>Direct backend\<close>

text \<open>The encoder chosen inside \<open>save_and_report\<close> for the extension \<open>ext\<close>.\<close>

definition encoder_of :: "request \<Rightarrow> string \<Rightarrow> encoder" where
  "encoder_of R ext =
     (if ext = ''png'' then PNG (max 0 (min 9 (png_compress_level R)))
      else if ext = ''jpg'' \<or> ext = ''jpeg'' then JPEG (max 1 (min 100 (int_or (quality R) 95)))
      else if ext = ''webp'' then
        WEBP (max 1 (min 100 (int_or (quality R) (if lossless R then 100 else 95)))) (lossless R)
      else PNG 9)"

text \<open>File name and encoder of a selected frame.\<close>

definition save_task_of :: "world \<Rightarrow> request \<Rightarrow> int \<Rightarrow> save_task" where
  "save_task_of W R n =
     (let timestamp = frame_to_timestamp (w_fps W) n;
          ext = lower (str_or (output_format R) ''png'')
      in \<lparr>task_frame = n, filename = timestamp @ ''.'' @ ext, encoding = encoder_of R ext\<rparr>)"

text \<open>
  The \<open>while current_frame_num <= end_frame\<close> loop. Without a pool an exception of the
  callback leaves the loop (and is re-raised as \<open>RuntimeError\<close> by the caller).
\<close>

function direct_loop :: "world \<Rightarrow> request \<Rightarrow> int \<Rightarrow> int \<Rightarrow> int \<Rightarrow> counters \<Rightarrow> py_error + counters" where
  "direct_loop W R s e current_frame_num st =
     (if current_frame_num \<le> e then
        (if \<not> read_ok W current_frame_num then
           direct_loop W R s e (current_frame_num + 1) (st\<lparr>failed_count := failed_count st + 1\<rparr>)
         else if (current_frame_num - s) mod max 1 (frame_interval R) = 0 then
           (if use_threading R then
              direct_loop W R s e (current_frame_num + 1)
                (st\<lparr>futures := futures st @ [save_task_of W R current_frame_num],
                    calls := calls st @ [save_task_of W R current_frame_num]\<rparr>)
            else if save_ok W current_frame_num then
              (if callback_raises W (progress_counter st + 1) then Inl RuntimeError
               else direct_loop W R s e (current_frame_num + 1)
                      (st\<lparr>extracted_count := extracted_count st + 1,
                          progress_counter := progress_counter st + 1,
                          calls := calls st @ [save_task_of W R current_frame_num]\<rparr>))
            else direct_loop W R s e (current_frame_num + 1)
                   (st\<lparr>failed_count := failed_count st + 1,
                       calls := calls st @ [save_task_of W R current_frame_num]\<rparr>))
         else direct_loop W R s e (current_frame_num + 1) st)
      else Inr st)"
  by pat_completeness auto
termination
  by (relation "measure (\<lambda>(W, R, s, e, c, st). nat (e + 1 - c))") auto

declare direct_loop.simps [simp del]

text \<open>The \<open>for future in futures\<close> loop: an exception of the callback is counted as a failure.\<close>

fun collect_futures :: "world \<Rightarrow> save_task list \<Rightarrow> counters \<Rightarrow> counters" where
  "collect_futures W [] st = st"
| "collect_futures W (t # ts) st =
     (let st1 = (if save_ok W (task_frame t) then st\<lparr>extracted_count := extracted_count st + 1\<rparr>
                 else st\<lparr>failed_count := failed_count st + 1\<rparr>);
          st2 = st1\<lparr>progress_counter := progress_counter st1 + 1\<rparr>;
          st3 = (if callback_raises W (progress_counter st2)
                 then st2\<lparr>failed_count := failed_count st2 + 1\<rparr> else st2)
      in collect_futures W ts st3)"

text \<open>The size of the thread pool; \<open>ThreadPoolExecutor\<close> raises on a size below 1.\<close>

definition pool_size :: "world \<Rightarrow> request \<Rightarrow> int" where
  "pool_size W R =
     (case max_workers R of
        None \<Rightarrow> max 1 (min 4 (int_or (cpu_count W) 4 - 1))
      | Some n \<Rightarrow> n)"

text \<open>Lines 191 to 295 of \<open>extract_frames\<close>: the direct (OpenCV) backend.\<close>

definition extract_opencv :: "world \<Rightarrow> request \<Rightarrow> int \<Rightarrow> int \<Rightarrow> int \<Rightarrow> py_error + result" where
  "extract_opencv W R s e planned =
     (if use_threading R \<and> pool_size W R \<le> 0 then Inl RuntimeError
      else
        (case direct_loop W R s e s
                \<lparr>extracted_count = 0, failed_count = 0, progress_counter = 0, futures = [], calls = []\<rparr> of
           Inl err \<Rightarrow> Inl RuntimeError
         | Inr st \<Rightarrow>
             (let st' = collect_futures W (futures st) st in
              Inr \<lparr>total_frames_to_extract = planned, extracted = extracted_count st',
                   failed = failed_count st', start_frame = s, end_frame = e,
                   written = calls st', renamed = []\<rparr>)))"

subsection \<open>Process-filter (ffmpeg) backend\<close>

datatype ffmpeg_codec = Codec_png int | Codec_mjpeg int | Codec_libwebp bool int

text \<open>
  The command line \<open>_extract_frames_ffmpeg\<close> builds, by its options: \<open>-hwaccel\<close>, \<open>-ss\<close>,
  \<open>-to\<close>, the modulus of \<open>select=not(mod(n\,k))\<close>, the codec options, \<open>-start_number\<close> and
  the extension of the output pattern \<open>%010d.ext\<close>.
\<close>

record ffmpeg_job =
  job_hwaccel :: string
  job_ss :: "string option"
  job_to :: "string option"
  job_select_mod :: int
  job_codec :: ffmpeg_codec
  job_start_number :: int
  job_ext :: string

definition ffmpeg_codec_of :: "request \<Rightarrow> string \<Rightarrow> ffmpeg_codec" where
  "ffmpeg_codec_of R ext =
     (if ext = ''png'' then Codec_png (max 0 (min 9 (png_compress_level R)))
      else if ext = ''jpg'' \<or> ext = ''jpeg'' then Codec_mjpeg (max 2 (min 31 (int_or (quality R) 2)))
      else if ext = ''webp'' then
        (if lossless R then Codec_libwebp True (int_or (quality R) 100)
         else Codec_libwebp False (max 1 (min 100 (int_or (quality R) 95))))
      else Codec_png 9)"

definition ffmpeg_job_of :: "request \<Rightarrow> int \<Rightarrow> ffmpeg_job" where
  "ffmpeg_job_of R s =
     (let ext = lower (str_or (output_format R) ''webp'') in
      \<lparr>job_hwaccel = (if hwaccel R \<noteq> [] \<and> hwaccel R \<noteq> ''auto'' then hwaccel R else ''auto''),
       job_ss = (if start_time R \<noteq> [] then Some (start_time R) else None),
       job_to = (case end_time R of None \<Rightarrow> None | Some t \<Rightarrow> if t = [] then None else Some t),
       job_select_mod = max 1 (frame_interval R),
       job_codec = ffmpeg_codec_of R ext,
       job_start_number = s,
       job_ext = ext\<rparr>)"

text \<open>
  The ffmpeg process is not code of this repository; its result is modelled from ffmpeg's
  documentation. Of the \<open>n\<close> frames decoded between \<open>-ss\<close> and \<open>-to\<close>, numbered from 0, the
  \<open>select\<close> filter keeps those whose number is a multiple of the modulus, and the
  \<open>image2\<close> muxer names the frames it writes consecutively, the first one by
  \<open>-start_number\<close>. Each produced file is given with the number, within the decoded range,
  of the frame it holds; the files are listed in ascending order.
\<close>

definition ffmpeg_run :: "nat \<Rightarrow> ffmpeg_job \<Rightarrow> (string \<times> int) list" where
  "ffmpeg_run n job =
     map (\<lambda>j. (fmt_d 10 (job_start_number job + int j) @ ''.'' @ job_ext job,
                int j * job_select_mod job))
       [0 ..< (n + nat (job_select_mod job) - 1) div nat (job_select_mod job)]"

definition endswith :: "string \<Rightarrow> string \<Rightarrow> bool" where
  "endswith s suffix = (length suffix \<le> length s \<and> drop (length s - length suffix) s = suffix)"

text \<open>\<open>os.path.splitext(fname)[0]\<close> for a name that does not start with a dot.\<close>

definition splitext_stem :: "string \<Rightarrow> string" where
  "splitext_stem fname =
     (if CHR ''.'' \<in> set fname then rev (tl (dropWhile (\<lambda>c. c \<noteq> CHR ''.'') (rev fname))) else fname)"

record rename_state =
  rn_extracted :: int
  rn_failed :: int
  rn_progress :: int
  rn_renamed :: "(string \<times> int) list"

text \<open>
  The \<open>for fname in files\<close> loop: the ordinal of the file name is read back as a frame index
  and the file is renamed to that index's label. Any exception in the body, the callback's
  included, is counted as a failure. \<open>s\<close> is the start frame: a file holding frame \<open>n\<close> of the
  decoded range holds frame \<open>s + n\<close> of the video.
\<close>

fun rename_files :: "world \<Rightarrow> int \<Rightarrow> string \<Rightarrow> (string \<times> int) list \<Rightarrow> rename_state \<Rightarrow> rename_state" where
  "rename_files W s ext [] st = st"
| "rename_files W s ext ((fname, n) # files) st =
     rename_files W s ext files
       (case py_int (splitext_stem fname) of
          None \<Rightarrow> st\<lparr>rn_failed := rn_failed st + 1\<rparr>
        | Some index \<Rightarrow>
            if \<not> replace_ok W fname then st\<lparr>rn_failed := rn_failed st + 1\<rparr>
            else
              (let st' = st\<lparr>rn_extracted := rn_extracted st + 1, rn_progress := rn_progress st + 1,
                            rn_renamed := rn_renamed st @
                              [(frame_to_timestamp (w_fps W) index @ ''.'' @ ext, s + n)]\<rparr>
               in if callback_raises W (rn_progress st') then st'\<lparr>rn_failed := rn_failed st' + 1\<rparr>
                  else st'))"

text \<open>
  \<open>_extract_frames_ffmpeg\<close>; \<open>q\<close> counts the calls of \<open>_ffmpeg_available\<close> made before
  this one. The scratch directory is taken to be creatable and empty.
\<close>

definition extract_frames_ffmpeg :: "world \<Rightarrow> request \<Rightarrow> nat \<Rightarrow> int \<Rightarrow> int \<Rightarrow> int \<Rightarrow> py_error + result" where
  "extract_frames_ffmpeg W R q s e planned =
     (if \<not> ffmpeg_available W q then Inl RuntimeError
      else
        (let job = ffmpeg_job_of R s in
         if ffmpeg_returncode W \<noteq> 0 then Inl RuntimeError
         else
           (let ext = job_ext job;
                files = filter (\<lambda>(f, n). endswith (lower f) (''.'' @ ext))
                          (ffmpeg_run (ffmpeg_decoded W) job);
                st = rename_files W s ext files
                       \<lparr>rn_extracted = 0, rn_failed = 0, rn_progress = 0, rn_renamed = []\<rparr>
            in Inr \<lparr>total_frames_to_extract = planned, extracted = rn_extracted st,
                    failed = rn_failed st, start_frame = s, end_frame = e,
                    written = [], renamed = rn_renamed st\<rparr>)))"

subsection \<open>\<open>extract_frames\<close>\<close>

text \<open>The backend the call settles on; \<open>auto\<close> asks once whether ffmpeg is on the path.\<close>

definition chosen_backend :: "world \<Rightarrow> request \<Rightarrow> string" where
  "chosen_backend W R =
     (if backend R = ''auto'' then (if ffmpeg_available W 0 then ''ffmpeg'' else ''opencv'')
      else backend R)"

definition extract_frames :: "world \<Rightarrow> request \<Rightarrow> py_error + result" where
  "extract_frames W R =
     (if \<not> cap_opened W then Inl ValueError
      else if \<not> makedirs_ok W then Inl OSError
      else
        (case timestamp_to_frame (w_fps W) (w_total_frames W) (start_time R) of
           Inl err \<Rightarrow> Inl err
         | Inr sf \<Rightarrow>
             (case (case end_time R of
                      None \<Rightarrow> Inr (w_total_frames W - 1)
                    | Some t \<Rightarrow> if t = [] then Inr (w_total_frames W - 1)
                                else timestamp_to_frame (w_fps W) (w_total_frames W) t) of
                Inl err \<Rightarrow> Inl err
              | Inr ef \<Rightarrow>
                  (let s = max 0 sf; e = min ef (w_total_frames W - 1) in
                   if e \<le> s then Inl ValueError
                   else
                     (case range_len s (e + 1) (frame_interval R) of
                        Inl err \<Rightarrow> Inl err
                      | Inr planned \<Rightarrow>
                          (let q = (if backend R = ''auto'' then 1 else 0)
                           in if chosen_backend W R = ''ffmpeg''
                              then extract_frames_ffmpeg W R q s e planned
                              else extract_opencv W R s e planned))))))"

subsection \<open>Video handle: the fast preview fetch\<close>

text \<open>
  \<open>cv2.VideoCapture\<close> is not code of this repository; it is modelled from OpenCV's
  documentation: \<open>CAP_PROP_POS_FRAMES\<close> is the 0-based index of the frame to be decoded
  next, \<open>read\<close> returns that frame and advances by one, \<open>grab\<close> advances by one without
  returning the frame, and both fail past the last frame. A frame is identified with its
  index.
\<close>

record capture =
  cap_frames :: int
  cap_pos :: int

definition cap_read :: "capture \<Rightarrow> int option \<times> capture" where
  "cap_read c =
     (if 0 \<le> cap_pos c \<and> cap_pos c < cap_frames c then (Some (cap_pos c), c\<lparr>cap_pos := cap_pos c + 1\<rparr>)
      else (None, c))"

definition cap_grab :: "capture \<Rightarrow> capture" where
  "cap_grab c =
     (if 0 \<le> cap_pos c \<and> cap_pos c < cap_frames c then c\<lparr>cap_pos := cap_pos c + 1\<rparr> else c)"

definition cap_set :: "capture \<Rightarrow> int \<Rightarrow> capture" where
  "cap_set c n = c\<lparr>cap_pos := n\<rparr>"

text \<open>\<open>get_frame_at_position\<close>: seek, then read.\<close>

definition get_frame_at_position :: "bool \<Rightarrow> int \<Rightarrow> capture \<Rightarrow> int \<Rightarrow> int option \<times> capture" where
  "get_frame_at_position opened n_frames c frame_number =
     (if \<not> opened then (None, c)
      else if frame_number < 0 \<or> n_frames \<le> frame_number then (None, c)
      else cap_read (cap_set c frame_number))"

text \<open>\<open>get_frame_at_seconds_fast\<close>, with \<open>self.video_info.get('fps', 0)\<close> as \<open>video_fps\<close>.\<close>

definition get_frame_at_seconds_fast :: "bool \<Rightarrow> rat \<Rightarrow> capture \<Rightarrow> rat \<Rightarrow> int option \<times> capture" where
  "get_frame_at_seconds_fast opened video_fps c seconds =
     (if \<not> opened then (None, c)
      else
        (let rate = (if video_fps = 0 then 25 else video_fps);
             target_frame = trunc (max 0 seconds * rate);
             current_frame = cap_pos c;
             diff = target_frame - current_frame;
             threshold = trunc (max 1 (rate * 2))
         in if 0 < diff \<and> diff \<le> threshold
            then cap_read ((cap_grab ^^ nat (max 0 (diff - 1))) c)
            else cap_read (cap_set c target_frame)))"

subsection \<open>Sample inputs\<close>

text \<open>
  A six-frame video at 25 frames per second in which everything succeeds and ffmpeg is not
  installed, and a request with the defaults of \<open>extract_frames\<close>, except that every second
  frame is asked for. The evaluated examples below vary them field by field.
\<close>

definition sample_world :: world where
  "sample_world =
     \<lparr>w_fps = 25, w_total_frames = 6, cap_opened = True, makedirs_ok = True, cpu_count = Some 8,
      ffmpeg_available = (\<lambda>k. False), read_ok = (\<lambda>n. True), save_ok = (\<lambda>n. True),
      callback = None, ffmpeg_returncode = 0, ffmpeg_decoded = 6, replace_ok = (\<lambda>f. True)\<rparr>"

definition sample_request :: request where
  "sample_request =
     \<lparr>start_time = ''00:00:00'', end_time = None, frame_interval = 2, use_threading = True,
      max_workers = None, output_format = ''webp'', quality = None, lossless = True,
      png_compress_level = 9, backend = ''auto'', hwaccel = ''auto''\<rparr>"

section \<open>Properties\<close>

subsection \<open>Format checker\<close>









subsection \<open>Timestamp text to frame index\<close>























subsection \<open>Frame index to label and back\<close>











































subsection \<open>Frame selection and counters of the direct backend\<close>

lemma upto_split_first: "c \<le> e \<Longrightarrow> [c..e] = c # [c + 1..e]"
  by (rule upto_rec1)

lemma direct_loop_calls:
  "direct_loop W R s e c st = Inr st' \<Longrightarrow>
     calls st' = calls st @ map (save_task_of W R)
       (filter (\<lambda>i. read_ok W i \<and> (i - s) mod max 1 (frame_interval R) = 0) [c..e])"
proof (induction W R s e c st rule: direct_loop.induct)
  case (1 W R s e c st)
  show ?case
  proof (cases "c \<le> e")
    case False
    with "1.prems" show ?thesis by (simp add: direct_loop.simps [of W R s e c st])
  next
    case True
    note up = upto_split_first [OF True]
    show ?thesis
    proof (cases "read_ok W c")
      case False
      with True "1.prems" have "direct_loop W R s e (c + 1) (st\<lparr>failed_count := failed_count st + 1\<rparr>) = Inr st'"
        by (simp add: direct_loop.simps [of W R s e c st])
      from "1.IH"(1) [OF True _ this] False show ?thesis by (simp add: up)
    next
      case rd: True
      show ?thesis
      proof (cases "(c - s) mod max 1 (frame_interval R) = 0")
        case False
        with True rd "1.prems" have "direct_loop W R s e (c + 1) st = Inr st'"
          by (simp add: direct_loop.simps [of W R s e c st])
        from "1.IH"(5) [OF True _ False this] rd False show ?thesis by (simp add: up)
      next
        case sel: True
        show ?thesis
        proof (cases "use_threading R")
          case True
          with \<open>c \<le> e\<close> rd sel "1.prems"
          have "direct_loop W R s e (c + 1)
                  (st\<lparr>futures := futures st @ [save_task_of W R c],
                      calls := calls st @ [save_task_of W R c]\<rparr>) = Inr st'"
            by (simp add: direct_loop.simps [of W R s e c st])
          from "1.IH"(2) [OF \<open>c \<le> e\<close> _ sel True this] rd sel show ?thesis by (simp add: up)
        next
          case nt: False
          show ?thesis
          proof (cases "save_ok W c")
            case True
            with \<open>c \<le> e\<close> rd sel nt "1.prems"
            have nr: "\<not> callback_raises W (progress_counter st + 1)"
              and "direct_loop W R s e (c + 1)
                  (st\<lparr>extracted_count := extracted_count st + 1,
                      progress_counter := progress_counter st + 1,
                      calls := calls st @ [save_task_of W R c]\<rparr>) = Inr st'"
              by (auto simp: direct_loop.simps [of W R s e c st] split: if_splits)
            from "1.IH"(3) [OF \<open>c \<le> e\<close> _ sel nt True nr this(2)] rd sel show ?thesis by (simp add: up)
          next
            case False
            with \<open>c \<le> e\<close> rd sel nt "1.prems"
            have "direct_loop W R s e (c + 1)
                  (st\<lparr>failed_count := failed_count st + 1,
                      calls := calls st @ [save_task_of W R c]\<rparr>) = Inr st'"
              by (simp add: direct_loop.simps [of W R s e c st])
            from "1.IH"(4) [OF \<open>c \<le> e\<close> _ sel nt False this] rd sel show ?thesis by (simp add: up)
          qed
        qed
      qed
    qed
  qed
qed

lemma direct_loop_accounted:
  "direct_loop W R s e c st = Inr st' \<Longrightarrow>
     extracted_count st' + failed_count st' + int (length (futures st')) =
       extracted_count st + failed_count st + int (length (futures st)) +
       int (length (filter (\<lambda>i. \<not> read_ok W i) [c..e])) +
       int (length (filter (\<lambda>i. read_ok W i \<and> (i - s) mod max 1 (frame_interval R) = 0) [c..e]))"
proof (induction W R s e c st rule: direct_loop.induct)
  case (1 W R s e c st)
  show ?case
  proof (cases "c \<le> e")
    case False
    with "1.prems" show ?thesis by (simp add: direct_loop.simps [of W R s e c st])
  next
    case True
    note up = upto_split_first [OF True]
    show ?thesis
    proof (cases "read_ok W c")
      case False
      with True "1.prems" have "direct_loop W R s e (c + 1) (st\<lparr>failed_count := failed_count st + 1\<rparr>) = Inr st'"
        by (simp add: direct_loop.simps [of W R s e c st])
      from "1.IH"(1) [OF True _ this] False show ?thesis by (simp add: up)
    next
      case rd: True
      show ?thesis
      proof (cases "(c - s) mod max 1 (frame_interval R) = 0")
        case False
        with True rd "1.prems" have "direct_loop W R s e (c + 1) st = Inr st'"
          by (simp add: direct_loop.simps [of W R s e c st])
        from "1.IH"(5) [OF True _ False this] rd False show ?thesis by (simp add: up)
      next
        case sel: True
        show ?thesis
        proof (cases "use_threading R")
          case True
          with \<open>c \<le> e\<close> rd sel "1.prems"
          have "direct_loop W R s e (c + 1)
                  (st\<lparr>futures := futures st @ [save_task_of W R c],
                      calls := calls st @ [save_task_of W R c]\<rparr>) = Inr st'"
            by (simp add: direct_loop.simps [of W R s e c st])
          from "1.IH"(2) [OF \<open>c \<le> e\<close> _ sel True this] rd sel show ?thesis by (simp add: up)
        next
          case nt: False
          show ?thesis
          proof (cases "save_ok W c")
            case True
            with \<open>c \<le> e\<close> rd sel nt "1.prems"
            have nr: "\<not> callback_raises W (progress_counter st + 1)"
              and "direct_loop W R s e (c + 1)
                  (st\<lparr>extracted_count := extracted_count st + 1,
                      progress_counter := progress_counter st + 1,
                      calls := calls st @ [save_task_of W R c]\<rparr>) = Inr st'"
              by (auto simp: direct_loop.simps [of W R s e c st] split: if_splits)
            from "1.IH"(3) [OF \<open>c \<le> e\<close> _ sel nt True nr this(2)] rd sel show ?thesis by (simp add: up)
          next
            case False
            with \<open>c \<le> e\<close> rd sel nt "1.prems"
            have "direct_loop W R s e (c + 1)
                  (st\<lparr>failed_count := failed_count st + 1,
                      calls := calls st @ [save_task_of W R c]\<rparr>) = Inr st'"
              by (simp add: direct_loop.simps [of W R s e c st])
            from "1.IH"(4) [OF \<open>c \<le> e\<close> _ sel nt False this] rd sel show ?thesis by (simp add: up)
          qed
        qed
      qed
    qed
  qed
qed

lemma collect_futures_counts:
  assumes "\<And>n. \<not> callback_raises W n"
  shows "extracted_count (collect_futures W ts st) + failed_count (collect_futures W ts st) =
           extracted_count st + failed_count st + int (length ts)"
  by (induction ts arbitrary: st) (simp_all add: assms Let_def)

lemma collect_futures_calls: "calls (collect_futures W ts st) = calls st"
  by (induction ts arbitrary: st) (simp_all add: Let_def)

lemma div_succ:
  fixes n k :: int
  assumes "0 < k" and "0 \<le> n"
  shows "(n + 1) div k = n div k + (if (n + 1) mod k = 0 then 1 else 0)"
proof (cases "n mod k + 1 = k")
  case True
  have "n + 1 = k * (n div k + 1) + 0"
    using True by (simp add: algebra_simps) (metis add.commute mult.commute div_mult_mod_eq add.assoc)
  then have "(n + 1) div k = n div k + 1" and "(n + 1) mod k = 0"
    using assms by (metis add.right_neutral div_mult_self2 div_0 less_irrefl nonzero_mult_div_cancel_left,
                    metis add.right_neutral mod_mult_self2_is_0 mult.commute)
  then show ?thesis by simp
next
  case False
  have r: "0 \<le> n mod k" "n mod k < k" using assms by simp_all
  with False have lt: "n mod k + 1 < k" by linarith
  have e: "n + 1 = k * (n div k) + (n mod k + 1)" by simp
  have "(n + 1) div k = n div k"
    by (rule int_div_pos_eq [OF e]) (use r lt in simp_all)
  moreover have "(n + 1) mod k = n mod k + 1"
    by (rule int_mod_pos_eq [OF e]) (use r lt in simp_all)
  ultimately show ?thesis using r by simp
qed

lemma selected_count:
  fixes s e k :: int
  assumes k: "0 < k" and se: "s \<le> e"
  shows "int (length (filter (\<lambda>i. (i - s) mod k = 0) [s..e])) = (e - s) div k + 1"
  using se
proof (induction e rule: int_ge_induct)
  case base
  show ?case by simp
next
  case (step e)
  have up: "[s..e + 1] = [s..e] @ [e + 1]"
    using step.hyps by (simp add: upto_rec2)
  have "(e + 1 - s) div k = (e - s) div k + (if (e + 1 - s) mod k = 0 then 1 else 0)"
    using div_succ [OF k, of "e - s"] step.hyps by (simp add: algebra_simps)
  then show ?case using step.IH by (simp add: up)
qed

lemma range_len_planned:
  assumes "0 < k" and "s \<le> e"
  shows "range_len s (e + 1) k = Inr ((e - s) div k + 1)"
  using assms by (simp add: range_len_def)

lemma filter_split_count:
  "int (length (filter (\<lambda>i. \<not> A i) xs)) + int (length (filter (\<lambda>i. A i \<and> B i) xs)) =
   int (length (filter B xs)) + int (length (filter (\<lambda>i. \<not> A i \<and> \<not> B i) xs))"
  by (induction xs) auto

text \<open>What a successful call went through.\<close>

lemma extract_frames_InrD:
  assumes "extract_frames W R = Inr r"
  obtains s e planned where "s < e" and "range_len s (e + 1) (frame_interval R) = Inr planned"
    and "if chosen_backend W R = ''ffmpeg''
         then extract_frames_ffmpeg W R (if backend R = ''auto'' then 1 else 0) s e planned = Inr r
         else extract_opencv W R s e planned = Inr r"
proof -
  define endf where "endf = (case end_time R of
                      None \<Rightarrow> Inr (w_total_frames W - 1)
                    | Some t \<Rightarrow> if t = [] then Inr (w_total_frames W - 1)
                                else timestamp_to_frame (w_fps W) (w_total_frames W) t)"
  note ef = assms [unfolded extract_frames_def, folded endf_def]
  from ef have ok: "cap_opened W" "makedirs_ok W" by (auto split: if_splits)
  from ef ok obtain sf where sf: "timestamp_to_frame (w_fps W) (w_total_frames W) (start_time R) = Inr sf"
    by (cases "timestamp_to_frame (w_fps W) (w_total_frames W) (start_time R)") auto
  from ef ok sf obtain ef' where ef': "endf = Inr ef'"
    by (cases endf) auto
  define s where "s = max 0 sf"
  define e where "e = min ef' (w_total_frames W - 1)"
  have lt: "s < e"
  proof (rule ccontr)
    assume "\<not> s < e"
    then have "min ef' (w_total_frames W - 1) \<le> max 0 sf" unfolding s_def e_def not_less .
    with ef ok sf ef' show False by (simp add: Let_def)
  qed
  then have nle: "\<not> min ef' (w_total_frames W - 1) \<le> max 0 sf" unfolding s_def e_def not_le .
  obtain planned where pl: "range_len s (e + 1) (frame_interval R) = Inr planned"
  proof (cases "range_len s (e + 1) (frame_interval R)")
    case (Inl err)
    then have "range_len (max 0 sf) (min ef' (w_total_frames W - 1) + 1) (frame_interval R) = Inl err"
      unfolding s_def e_def .
    with ef ok sf ef' nle show ?thesis by (simp add: Let_def)
  next
    case (Inr planned)
    then show ?thesis by (rule that)
  qed
  then have pl': "range_len (max 0 sf) (min ef' (w_total_frames W - 1) + 1) (frame_interval R) = Inr planned"
    unfolding s_def e_def .
  from ef ok sf ef' nle pl'
  have "if chosen_backend W R = ''ffmpeg''
         then extract_frames_ffmpeg W R (if backend R = ''auto'' then 1 else 0) s e planned = Inr r
         else extract_opencv W R s e planned = Inr r"
    by (simp add: Let_def s_def e_def split: if_splits)
  with lt pl show thesis by (rule that)
qed

lemma extract_opencv_InrD:
  assumes "extract_opencv W R s e planned = Inr r"
  obtains st where "direct_loop W R s e s
      \<lparr>extracted_count = 0, failed_count = 0, progress_counter = 0, futures = [], calls = []\<rparr> = Inr st"
    and "r = \<lparr>total_frames_to_extract = planned,
              extracted = extracted_count (collect_futures W (futures st) st),
              failed = failed_count (collect_futures W (futures st) st),
              start_frame = s, end_frame = e,
              written = calls (collect_futures W (futures st) st), renamed = []\<rparr>"
  using assms
  unfolding extract_opencv_def Let_def
  by (auto split: if_splits sum.splits)

lemma extract_frames_ffmpeg_InrD:
  assumes "extract_frames_ffmpeg W R q s e planned = Inr r"
  shows "total_frames_to_extract r = planned \<and> start_frame r = s \<and> end_frame r = e"
  using assms
  unfolding extract_frames_ffmpeg_def Let_def
  by (auto split: if_splits)

lemma direct_run:
  assumes run: "extract_frames W R = Inr r" and direct: "chosen_backend W R \<noteq> ''ffmpeg''"
  obtains st planned where "start_frame r < end_frame r"
    and "range_len (start_frame r) (end_frame r + 1) (frame_interval R) = Inr planned"
    and "total_frames_to_extract r = planned"
    and "direct_loop W R (start_frame r) (end_frame r) (start_frame r)
      \<lparr>extracted_count = 0, failed_count = 0, progress_counter = 0, futures = [], calls = []\<rparr> = Inr st"
    and "extracted r = extracted_count (collect_futures W (futures st) st)"
    and "failed r = failed_count (collect_futures W (futures st) st)"
    and "written r = calls st"
proof -
  from run obtain s e planned where se: "s < e"
    and pl: "range_len s (e + 1) (frame_interval R) = Inr planned"
    and ex: "if chosen_backend W R = ''ffmpeg''
         then extract_frames_ffmpeg W R (if backend R = ''auto'' then 1 else 0) s e planned = Inr r
         else extract_opencv W R s e planned = Inr r"
    by (rule extract_frames_InrD)
  from ex direct have "extract_opencv W R s e planned = Inr r" by simp
  then obtain st where lp: "direct_loop W R s e s
      \<lparr>extracted_count = 0, failed_count = 0, progress_counter = 0, futures = [], calls = []\<rparr> = Inr st"
    and r: "r = \<lparr>total_frames_to_extract = planned,
              extracted = extracted_count (collect_futures W (futures st) st),
              failed = failed_count (collect_futures W (futures st) st),
              start_frame = s, end_frame = e,
              written = calls (collect_futures W (futures st) st), renamed = []\<rparr>"
    by (rule extract_opencv_InrD)
  show thesis
    by (rule that [of planned st]) (use se pl lp in \<open>simp_all add: r collect_futures_calls\<close>)
qed

lemma planned_total:
  assumes run: "extract_frames W R = Inr r" and k: "1 \<le> frame_interval R"
  shows "total_frames_to_extract r = (end_frame r - start_frame r) div frame_interval R + 1"
proof -
  from run obtain s e planned where se: "s < e"
    and pl: "range_len s (e + 1) (frame_interval R) = Inr planned"
    and ex: "if chosen_backend W R = ''ffmpeg''
         then extract_frames_ffmpeg W R (if backend R = ''auto'' then 1 else 0) s e planned = Inr r
         else extract_opencv W R s e planned = Inr r"
    by (rule extract_frames_InrD)
  have f: "total_frames_to_extract r = planned \<and> start_frame r = s \<and> end_frame r = e"
  proof (cases "chosen_backend W R = ''ffmpeg''")
    case True
    with ex show ?thesis by (simp add: extract_frames_ffmpeg_InrD)
  next
    case False
    with ex have "extract_opencv W R s e planned = Inr r" by simp
    then show ?thesis by (rule extract_opencv_InrD) simp
  qed
  have "range_len s (e + 1) (frame_interval R) = Inr ((e - s) div frame_interval R + 1)"
    by (rule range_len_planned) (use k se in simp_all)
  with pl f show ?thesis by simp
qed




text \<open>
  C2, as stated, fails. In the six-frame sample with stride 2 the frames 0, 2, 4 are planned;
  when the decoder fails on frame 1, which is not selected, the loop still counts a failure:
  three frames are extracted, one is failed, and three were planned.
\<close>

theorem counters_unselected_read_failure_counterexample:
  "map_sum id (\<lambda>r. (extracted r, failed r, total_frames_to_extract r))
     (extract_frames (sample_world\<lparr>read_ok := (\<lambda>n. n \<noteq> 1)\<rparr>) (sample_request\<lparr>backend := ''opencv''\<rparr>)) =
   Inr (3, 1, 3)"
  by code_simp

text \<open>
  C2, amended. After a completed run of the direct backend with stride \<open>k \<ge> 1\<close> whose
  progress callback does not raise, \<open>extracted_count + failed_count\<close> is
  \<open>total_frames_to_extract\<close> plus the number of frames of \<open>[s, e]\<close> that are not selected and
  failed to decode.
\<close>

theorem counters_account:
  assumes run: "extract_frames W R = Inr r" and direct: "chosen_backend W R \<noteq> ''ffmpeg''"
    and k: "1 \<le> frame_interval R" and cb: "\<And>n. \<not> callback_raises W n"
  shows "extracted r + failed r =
           total_frames_to_extract r +
           int (length (filter (\<lambda>i. \<not> read_ok W i \<and> (i - start_frame r) mod frame_interval R \<noteq> 0)
                  [start_frame r..end_frame r]))"
proof -
  from run direct obtain st where se: "start_frame r < end_frame r"
    and lp: "direct_loop W R (start_frame r) (end_frame r) (start_frame r)
      \<lparr>extracted_count = 0, failed_count = 0, progress_counter = 0, futures = [], calls = []\<rparr> = Inr st"
    and ex: "extracted r = extracted_count (collect_futures W (futures st) st)"
    and fl: "failed r = failed_count (collect_futures W (futures st) st)"
    by (rule direct_run)
  have mk: "max 1 (frame_interval R) = frame_interval R" using k by simp
  have "extracted r + failed r = extracted_count st + failed_count st + int (length (futures st))"
    unfolding ex fl by (rule collect_futures_counts [OF cb])
  also have "\<dots> =
       int (length (filter (\<lambda>i. \<not> read_ok W i) [start_frame r..end_frame r])) +
       int (length (filter (\<lambda>i. read_ok W i \<and> (i - start_frame r) mod frame_interval R = 0)
              [start_frame r..end_frame r]))"
    using direct_loop_accounted [OF lp] unfolding mk by simp
  also have "\<dots> =
       int (length (filter (\<lambda>i. (i - start_frame r) mod frame_interval R = 0) [start_frame r..end_frame r])) +
       int (length (filter (\<lambda>i. \<not> read_ok W i \<and> (i - start_frame r) mod frame_interval R \<noteq> 0)
              [start_frame r..end_frame r]))"
    by (rule filter_split_count)
  also have "int (length (filter (\<lambda>i. (i - start_frame r) mod frame_interval R = 0) [start_frame r..end_frame r])) =
       (end_frame r - start_frame r) div frame_interval R + 1"
    by (rule selected_count) (use k se in simp_all)
  also have "\<dots> = total_frames_to_extract r"
    by (rule planned_total [OF run k, symmetric])
  finally show ?thesis .
qed

lemma sample_run_failed_reads:
  "extract_frames (sample_world\<lparr>read_ok := (\<lambda>n. n \<noteq> 1 \<and> n \<noteq> 2)\<rparr>) (sample_request\<lparr>use_threading := False\<rparr>) =
     Inr \<lparr>total_frames_to_extract = 3, extracted = 2, failed = 2, start_frame = 0, end_frame = 5,
          written =
            [\<lparr>task_frame = 0, filename = ''00-00-00-000.webp'', encoding = WEBP 100 True\<rparr>,
             \<lparr>task_frame = 4, filename = ''00-00-00-160.webp'', encoding = WEBP 100 True\<rparr>],
          renamed = []\<rparr>"
  by code_simp

theorem counters_account_witness:
  "map_sum id (\<lambda>r. (extracted r + failed r, total_frames_to_extract r + 1))
     (extract_frames (sample_world\<lparr>read_ok := (\<lambda>n. n \<noteq> 1 \<and> n \<noteq> 2)\<rparr>)
        (sample_request\<lparr>use_threading := False\<rparr>)) = Inr (4, 4)"
proof -
  have k: "1 \<le> frame_interval (sample_request\<lparr>use_threading := False\<rparr>)"
    by (simp add: sample_request_def)
  have d: "chosen_backend (sample_world\<lparr>read_ok := (\<lambda>n. n \<noteq> 1 \<and> n \<noteq> 2)\<rparr>)
             (sample_request\<lparr>use_threading := False\<rparr>) \<noteq> ''ffmpeg''"
    by (simp add: chosen_backend_def sample_world_def sample_request_def)
  have cb: "\<And>n. \<not> callback_raises (sample_world\<lparr>read_ok := (\<lambda>n. n \<noteq> 1 \<and> n \<noteq> 2)\<rparr>) n"
    by (simp add: callback_raises_def sample_world_def)
  from counters_account [OF sample_run_failed_reads d k cb] show ?thesis
    by (simp add: sample_run_failed_reads)
qed

subsection \<open>Backend selection\<close>









subsection \<open>Ordinals of the process-filter backend\<close>

text \<open>
  C5 at a failing input: stride 2 on the six-frame sample with ffmpeg installed. ffmpeg keeps
  the frames 0, 2 and 4 and names them 0, 1 and 2; the files are renamed to the labels of the
  frames 0, 1 and 2, while the frames they hold have the labels below.
\<close>

theorem ffmpeg_ordinal_is_not_frame_index:
  "map_sum id renamed (extract_frames (sample_world\<lparr>ffmpeg_available := (\<lambda>k. True)\<rparr>) sample_request) =
     Inr [(''00-00-00-000.webp'', 0), (''00-00-00-040.webp'', 2), (''00-00-00-080.webp'', 4)] \<and>
   map (frame_to_timestamp 25) [0, 2, 4] = [''00-00-00-000'', ''00-00-00-080'', ''00-00-00-160'']"
  by code_simp

subsection \<open>Fast preview fetch\<close>

text \<open>
  On the grab path \<open>diff - 1\<close> frames are skipped from the cursor and the next one is read:
  the frame before the target. On the seek path the target itself is read.
\<close>

lemma cap_grab_funpow:
  assumes "0 \<le> cap_pos c" and "cap_pos c + int n \<le> cap_frames c"
  shows "(cap_grab ^^ n) c = c\<lparr>cap_pos := cap_pos c + int n\<rparr>"
  using assms
proof (induction n)
  case 0
  show ?case by simp
next
  case (Suc n)
  then have ih: "(cap_grab ^^ n) c = c\<lparr>cap_pos := cap_pos c + int n\<rparr>" by simp
  have "(cap_grab ^^ Suc n) c = cap_grab (c\<lparr>cap_pos := cap_pos c + int n\<rparr>)"
    by (simp only: funpow.simps o_apply ih)
  also have "\<dots> = c\<lparr>cap_pos := cap_pos c + int (Suc n)\<rparr>"
    using Suc.prems by (simp add: cap_grab_def add.assoc)
  finally show ?case .
qed

lemma grab_path_returns_previous_frame:
  assumes opened: "opened" and rate: "rate = (if video_fps = 0 then 25 else video_fps)"
    and target: "target = trunc (max 0 seconds * rate)"
    and pos: "0 \<le> cap_pos c"
    and near: "cap_pos c < target" "target - cap_pos c \<le> trunc (max 1 (rate * 2))"
    and inside: "target \<le> cap_frames c"
  shows "fst (get_frame_at_seconds_fast opened video_fps c seconds) = Some (target - 1)"
proof -
  have n: "int (nat (max 0 (target - cap_pos c - 1))) = target - cap_pos c - 1"
    using near(1) by simp
  have g: "(cap_grab ^^ nat (max 0 (target - cap_pos c - 1))) c = c\<lparr>cap_pos := target - 1\<rparr>"
    using cap_grab_funpow [OF pos, of "nat (max 0 (target - cap_pos c - 1))"] inside near(1)
    unfolding n by simp
  have "get_frame_at_seconds_fast opened video_fps c seconds =
          cap_read ((cap_grab ^^ nat (max 0 (target - cap_pos c - 1))) c)"
    using opened near
    unfolding get_frame_at_seconds_fast_def Let_def rate [symmetric] target [symmetric]
    by simp
  then show ?thesis
    unfolding g using pos near(1) inside by (simp add: cap_read_def)
qed

lemma seek_path_returns_target:
  assumes opened: "opened" and rate: "rate = (if video_fps = 0 then 25 else video_fps)"
    and target: "target = trunc (max 0 seconds * rate)"
    and far: "target \<le> cap_pos c \<or> trunc (max 1 (rate * 2)) < target - cap_pos c"
    and inside: "0 \<le> target" "target < cap_frames c"
  shows "fst (get_frame_at_seconds_fast opened video_fps c seconds) = Some target"
proof -
  have "get_frame_at_seconds_fast opened video_fps c seconds = cap_read (cap_set c target)"
    using opened far
    unfolding get_frame_at_seconds_fast_def Let_def rate [symmetric] target [symmetric]
    by auto
  then show ?thesis using inside by (simp add: cap_read_def cap_set_def)
qed

text \<open>
  C4 at a failing input: at 4 frames per second, 0.5 seconds is frame 2. From cursor 0 the
  grab path advances one frame and reads frame 1; from cursor 5 the seek path reads frame 2.
\<close>

theorem fast_fetch_grab_path_returns_previous_frame:
  "fst (get_frame_at_seconds_fast True 4 \<lparr>cap_frames = 10, cap_pos = 0\<rparr> (1 / 2)) = Some 1 \<and>
   fst (get_frame_at_seconds_fast True 4 \<lparr>cap_frames = 10, cap_pos = 5\<rparr> (1 / 2)) = Some 2"
  by code_simp

subsection \<open>Unknown output formats in the direct backend\<close>

lemma direct_loop_isl_format:
  assumes "progress_counter st' = progress_counter st"
  shows "isl (direct_loop W (R\<lparr>output_format := f\<rparr>) s e c st') = isl (direct_loop W R s e c st)"
  using assms
proof (induction "nat (e + 1 - c)" arbitrary: c st st')
  case 0
  then have "\<not> c \<le> e" by simp
  then show ?case
    by (simp add: direct_loop.simps [of W "R\<lparr>output_format := f\<rparr>" s e c st']
          direct_loop.simps [of W R s e c st])
next
  case (Suc n)
  then have n: "n = nat (e + 1 - (c + 1))" by linarith
  note ih = Suc.hyps(1) [OF n]
  let ?R = "R\<lparr>output_format := f\<rparr>"
  have p: "progress_counter st' = progress_counter st" by (rule Suc.prems)
  note steps =
    ih [of "st'\<lparr>failed_count := failed_count st' + 1\<rparr>" "st\<lparr>failed_count := failed_count st + 1\<rparr>"]
    ih [of "st'\<lparr>futures := futures st' @ [save_task_of W ?R c], calls := calls st' @ [save_task_of W ?R c]\<rparr>"
           "st\<lparr>futures := futures st @ [save_task_of W R c], calls := calls st @ [save_task_of W R c]\<rparr>"]
    ih [of "st'\<lparr>extracted_count := extracted_count st' + 1, progress_counter := progress_counter st + 1,
               calls := calls st' @ [save_task_of W ?R c]\<rparr>"
           "st\<lparr>extracted_count := extracted_count st + 1, progress_counter := progress_counter st + 1,
               calls := calls st @ [save_task_of W R c]\<rparr>"]
    ih [of "st'\<lparr>failed_count := failed_count st' + 1, calls := calls st' @ [save_task_of W ?R c]\<rparr>"
           "st\<lparr>failed_count := failed_count st + 1, calls := calls st @ [save_task_of W R c]\<rparr>"]
    ih [of st' st]
  show ?case
    by (simp add: direct_loop.simps [of W ?R s e c st'] direct_loop.simps [of W R s e c st] steps p)
qed

lemma extract_opencv_Inl_format:
  assumes "extract_opencv W R s e planned = Inl err"
  shows "extract_opencv W (R\<lparr>output_format := f\<rparr>) s e planned = Inl err"
proof -
  let ?st0 = "\<lparr>extracted_count = 0, failed_count = 0, progress_counter = 0, futures = [], calls = []\<rparr>"
  have ps: "pool_size W (R\<lparr>output_format := f\<rparr>) = pool_size W R"
    by (simp add: pool_size_def)
  have il: "isl (direct_loop W (R\<lparr>output_format := f\<rparr>) s e s ?st0) = isl (direct_loop W R s e s ?st0)"
    by (rule direct_loop_isl_format) simp
  from assms have err: "err = RuntimeError"
    by (auto simp: extract_opencv_def Let_def split: if_splits sum.splits)
  show ?thesis
  proof (cases "use_threading R \<and> pool_size W R \<le> 0")
    case True
    then show ?thesis by (simp add: extract_opencv_def ps err)
  next
    case False
    with assms have "isl (direct_loop W R s e s ?st0)"
      by (auto simp: extract_opencv_def Let_def split: if_splits sum.splits)
    with il have "isl (direct_loop W (R\<lparr>output_format := f\<rparr>) s e s ?st0)" by simp
    then obtain x where "direct_loop W (R\<lparr>output_format := f\<rparr>) s e s ?st0 = Inl x"
      by (cases "direct_loop W (R\<lparr>output_format := f\<rparr>) s e s ?st0") simp_all
    with False show ?thesis by (simp add: extract_opencv_def ps err)
  qed
qed

lemma written_tasks:
  assumes run: "extract_frames W R = Inr r" and direct: "chosen_backend W R \<noteq> ''ffmpeg''"
    and t: "t \<in> set (written r)"
  shows "t = save_task_of W R (task_frame t)"
proof -
  from run direct obtain st where lp: "direct_loop W R (start_frame r) (end_frame r) (start_frame r)
      \<lparr>extracted_count = 0, failed_count = 0, progress_counter = 0, futures = [], calls = []\<rparr> = Inr st"
    and w: "written r = calls st"
    by (rule direct_run)
  from t obtain i where "t = save_task_of W R i"
    unfolding w direct_loop_calls [OF lp] by auto
  moreover have "task_frame (save_task_of W R i) = i"
    by (simp add: save_task_of_def Let_def)
  ultimately show ?thesis by simp
qed

lemma save_task_unknown_format:
  assumes ne: "output_format R \<noteq> []"
    and unk: "lower (output_format R) \<notin> {''png'', ''jpg'', ''jpeg'', ''webp''}"
  shows "save_task_of W R n =
           \<lparr>task_frame = n, filename = frame_to_timestamp (w_fps W) n @ ''.'' @ lower (output_format R),
            encoding = PNG 9\<rparr>"
proof -
  have e: "str_or (output_format R) ''png'' = output_format R" using ne by (simp add: str_or_def)
  have "encoder_of R (lower (output_format R)) = PNG 9"
    using unk by (simp add: encoder_of_def)
  then show ?thesis by (simp add: save_task_of_def e)
qed

lemma extract_frames_Inl_format:
  assumes err: "extract_frames W R = Inl err" and direct: "chosen_backend W R \<noteq> ''ffmpeg''"
  shows "extract_frames W (R\<lparr>output_format := f\<rparr>) = Inl err"
proof -
  have cb: "chosen_backend W (R\<lparr>output_format := f\<rparr>) = chosen_backend W R"
    by (simp add: chosen_backend_def)
  show ?thesis
    using err direct extract_opencv_Inl_format [of W R _ _ _ err f]
    unfolding extract_frames_def cb
    by (auto simp: Let_def split: if_splits sum.splits option.splits)
qed

text \<open>
  C10, as stated, fails on the file name. An empty \<open>output_format\<close> is replaced by \<open>png\<close>,
  and any other is lowercased, before the extension is attached: the request \<open>BMP\<close> gives
  files ending in \<open>.bmp\<close>, and the empty request gives files ending in \<open>.png\<close>.
\<close>

theorem unknown_format_extension_counterexample:
  "lower '''' \<notin> {''png'', ''jpg'', ''jpeg'', ''webp''} \<and>
   map_sum id (\<lambda>r. map filename (written r))
     (extract_frames sample_world (sample_request\<lparr>output_format := ''''\<rparr>)) =
     Inr [''00-00-00-000.png'', ''00-00-00-080.png'', ''00-00-00-160.png''] \<and>
   lower ''BMP'' \<notin> {''png'', ''jpg'', ''jpeg'', ''webp''} \<and>
   map_sum id (\<lambda>r. map filename (written r))
     (extract_frames sample_world (sample_request\<lparr>output_format := ''BMP''\<rparr>)) =
     Inr [''00-00-00-000.bmp'', ''00-00-00-080.bmp'', ''00-00-00-160.bmp'']"
  by code_simp

text \<open>
  C10, amended. For a non-empty \<open>output_format\<close> whose lowercase form is none of \<open>png\<close>,
  \<open>jpg\<close>, \<open>jpeg\<close>, \<open>webp\<close>, the direct backend encodes every selected frame as PNG with
  compression level 9 and names the file by the frame's label and the lowercase form of the
  requested format; the unknown format raises no error: a call that fails fails with the same
  error when \<open>png\<close> is requested.
\<close>

theorem unknown_format_falls_back_to_png:
  assumes direct: "chosen_backend W R \<noteq> ''ffmpeg''" and ne: "output_format R \<noteq> []"
    and unk: "lower (output_format R) \<notin> {''png'', ''jpg'', ''jpeg'', ''webp''}"
  shows "(\<forall>r t. extract_frames W R = Inr r \<longrightarrow> t \<in> set (written r) \<longrightarrow>
            encoding t = PNG 9 \<and>
            filename t = frame_to_timestamp (w_fps W) (task_frame t) @ ''.'' @ lower (output_format R)) \<and>
         (\<forall>err. extract_frames W R = Inl err \<longrightarrow> extract_frames W (R\<lparr>output_format := ''png''\<rparr>) = Inl err)"
proof (intro conjI allI impI)
  fix r t
  assume run: "extract_frames W R = Inr r" and t: "t \<in> set (written r)"
  have "t = save_task_of W R (task_frame t)"
    by (rule written_tasks [OF run direct t])
  also have "\<dots> = \<lparr>task_frame = task_frame t,
       filename = frame_to_timestamp (w_fps W) (task_frame t) @ ''.'' @ lower (output_format R),
       encoding = PNG 9\<rparr>"
    by (rule save_task_unknown_format [OF ne unk])
  finally have eq: "t = \<lparr>task_frame = task_frame t,
       filename = frame_to_timestamp (w_fps W) (task_frame t) @ ''.'' @ lower (output_format R),
       encoding = PNG 9\<rparr>" .
  show "encoding t = PNG 9" by (subst eq) simp
  show "filename t = frame_to_timestamp (w_fps W) (task_frame t) @ ''.'' @ lower (output_format R)"
    by (subst eq) simp
next
  fix err
  assume "extract_frames W R = Inl err"
  then show "extract_frames W (R\<lparr>output_format := ''png''\<rparr>) = Inl err"
    by (rule extract_frames_Inl_format [OF _ direct])
qed

lemma sample_run_bmp:
  "extract_frames sample_world (sample_request\<lparr>output_format := ''BMP''\<rparr>) =
     Inr \<lparr>total_frames_to_extract = 3, extracted = 3, failed = 0, start_frame = 0, end_frame = 5,
          written =
            [\<lparr>task_frame = 0, filename = ''00-00-00-000.bmp'', encoding = PNG 9\<rparr>,
             \<lparr>task_frame = 2, filename = ''00-00-00-080.bmp'', encoding = PNG 9\<rparr>,
             \<lparr>task_frame = 4, filename = ''00-00-00-160.bmp'', encoding = PNG 9\<rparr>],
          renamed = []\<rparr>"
  by code_simp

theorem unknown_format_falls_back_to_png_witness:
  "map_sum id (\<lambda>r. map (\<lambda>t. (filename t, encoding t)) (written r))
     (extract_frames sample_world (sample_request\<lparr>output_format := ''BMP''\<rparr>)) =
   Inr [(''00-00-00-000.bmp'', PNG 9), (''00-00-00-080.bmp'', PNG 9), (''00-00-00-160.bmp'', PNG 9)]"
proof -
  have d: "chosen_backend sample_world (sample_request\<lparr>output_format := ''BMP''\<rparr>) \<noteq> ''ffmpeg''"
    by (simp add: chosen_backend_def sample_world_def sample_request_def)
  have ne: "output_format (sample_request\<lparr>output_format := ''BMP''\<rparr>) \<noteq> []" by simp
  have unk: "lower (output_format (sample_request\<lparr>output_format := ''BMP''\<rparr>)) \<notin>
               {''png'', ''jpg'', ''jpeg'', ''webp''}"
    by (simp add: lower_def lower_char_def)
  from unknown_format_falls_back_to_png [OF d ne unk] show ?thesis
    by (simp add: sample_run_bmp)
qed

end
